theory Spec2Isabelle
  imports
    Main
    "HOL-Library.Word"
    "HOL-Library.AList"
    "HOL-Library.Multiset"
    "HOL-Library.Sublist"
    "HOL-Library.Char_ord"
    "HOL-Library.List_Lexorder"
    "HOL-Library.Product_Lexorder"
begin

section \<open>Endpoints\<close>

text \<open>
  Go strings are byte sequences and are modelled as \<^typ>\<open>string\<close>. A Go
  \<^verbatim>\<open>map[string]string\<close> is an association list read with \<^const>\<open>map_of\<close>;
  reading an absent key gives the zero value, the empty string.
\<close>

type_synonym strmap = "(string \<times> string) list"

definition index_map :: "strmap \<Rightarrow> string \<Rightarrow> string" where
  \<comment> \<open>The Go expression \<^verbatim>\<open>m[k]\<close> on a \<^verbatim>\<open>map[string]string\<close>.\<close>
  "index_map m k = (case map_of m k of None \<Rightarrow> [] | Some v \<Rightarrow> v)"

text \<open>
  Modelled from the spec: the \<^verbatim>\<open>endpoint.Endpoint\<close> struct that the registry, the
  plan and the sources use (with labels, record type and TTL) is not among the source
  files, where \<^verbatim>\<open>endpoint/endpoint.go\<close> is the early two-field struct. The record below
  has the fields of the data model of the specification (section 3), under the Go names the
  callers use.
\<close>

record LEndpoint =
  DNSName :: string
  Targets :: "string list"
  RecordType :: string
  RecordTTL :: nat
  Labels :: strmap
  ProviderSpecific :: strmap

text \<open>
  Modelled from the spec: the constant \<^verbatim>\<open>endpoint.OwnerLabelKey\<close> is declared outside
  the source files; the specification names the reserved label \<^verbatim>\<open>owner\<close>.
\<close>

definition OwnerLabelKey :: string where
  "OwnerLabelKey = ''owner''"

text \<open>
  Modelled from the spec: the constants \<^verbatim>\<open>endpoint.RecordTypeA\<close> and
  \<^verbatim>\<open>endpoint.RecordTypeCNAME\<close> are declared outside the source files; the
  specification gives the record types \<^verbatim>\<open>A\<close>, \<^verbatim>\<open>CNAME\<close> and \<^verbatim>\<open>TXT\<close>.
\<close>

definition RecordTypeA :: string where
  "RecordTypeA = ''A''"

definition RecordTypeCNAME :: string where
  "RecordTypeCNAME = ''CNAME''"

section \<open>registry: filterOwnedRecords\<close>

text \<open>
  The loop of \<^verbatim>\<open>filterOwnedRecords\<close>: \<^verbatim>\<open>filtered\<close> starts empty and every endpoint
  whose \<^verbatim>\<open>Labels[endpoint.OwnerLabelKey]\<close> equals \<^verbatim>\<open>ownerID\<close> is appended. The slice
  holds pointers to endpoints, none of them \<^verbatim>\<open>nil\<close>; no endpoint is written, so they
  are modelled by value.
\<close>

fun filterOwnedRecords_loop :: "string \<Rightarrow> LEndpoint list \<Rightarrow> LEndpoint list \<Rightarrow> LEndpoint list" where
  "filterOwnedRecords_loop ownerID filtered [] = filtered"
| "filterOwnedRecords_loop ownerID filtered (ep # eps) =
     filterOwnedRecords_loop ownerID
       (if index_map (Labels ep) OwnerLabelKey = ownerID then filtered @ [ep] else filtered) eps"

definition filterOwnedRecords :: "string \<Rightarrow> LEndpoint list \<Rightarrow> LEndpoint list" where
  "filterOwnedRecords ownerID eps = filterOwnedRecords_loop ownerID [] eps"

text \<open>An endpoint without any label, and one owned by \<^verbatim>\<open>me\<close>.\<close>

definition ep_unlabelled :: LEndpoint where
  "ep_unlabelled = \<lparr>DNSName = ''foo'', Targets = [''1.1.1.1''], RecordType = ''A'',
     RecordTTL = 0, Labels = [], ProviderSpecific = []\<rparr>"

definition ep_mine :: LEndpoint where
  "ep_mine = \<lparr>DNSName = ''bar'', Targets = [''2.2.2.2''], RecordType = ''A'',
     RecordTTL = 0, Labels = [(''owner'', ''me'')], ProviderSpecific = []\<rparr>"

section \<open>provider: suitableType and guessRecordType\<close>

text \<open>
  \<^verbatim>\<open>net.ParseIP\<close> belongs to the Go standard library. It is a parameter of the model:
  a function from the target to the parsed address, \<^const>\<open>None\<close> for Go's \<^verbatim>\<open>nil\<close>.
\<close>

definition suitableType :: "(string \<Rightarrow> 'ip option) \<Rightarrow> string \<Rightarrow> string" where
  "suitableType ParseIP target = (if ParseIP target = None then ''CNAME'' else ''A'')"

definition guessRecordType :: "(string \<Rightarrow> 'ip option) \<Rightarrow> string \<Rightarrow> string" where
  "guessRecordType ParseIP target =
     (if ParseIP target \<noteq> None then RecordTypeA else RecordTypeCNAME)"

text \<open>A parser that knows one address, to run the functions on.\<close>

definition parse_one :: "string \<Rightarrow> unit option" where
  "parse_one s = (if s = ''1.2.3.4'' then Some () else None)"

section \<open>registry: NoopRegistry\<close>

text \<open>
  Modelled from the spec: \<^verbatim>\<open>plan.Changes\<close> is declared outside the source files;
  the specification gives its four sequences.
\<close>

record Changes =
  Create :: "LEndpoint list"
  UpdateOld :: "LEndpoint list"
  UpdateNew :: "LEndpoint list"
  Delete :: "LEndpoint list"

text \<open>
  The \<^verbatim>\<open>Provider\<close> interface. A provider talks to a DNS service, so each method takes
  the state of that service and returns the new one. A Go result \<^verbatim>\<open>(eps, err)\<close> is a
  pair: the slice is \<^const>\<open>None\<close> for \<^verbatim>\<open>nil\<close>, the error is \<^const>\<open>None\<close> for
  \<^verbatim>\<open>nil\<close>.
\<close>

record ('st, 'err) Provider =
  Records :: "string \<Rightarrow> 'st \<Rightarrow> (LEndpoint list option \<times> 'err option) \<times> 'st"
  ApplyChanges :: "string \<Rightarrow> Changes \<Rightarrow> 'st \<Rightarrow> 'err option \<times> 'st"

record ('st, 'err) NoopRegistry =
  provider :: "('st, 'err) Provider"

definition NoopRegistry_Records ::
  "('st, 'err) NoopRegistry \<Rightarrow> string \<Rightarrow> 'st \<Rightarrow> (LEndpoint list option \<times> 'err option) \<times> 'st" where
  "NoopRegistry_Records im zone s =
     (case Records (provider im) zone s of
        ((eps, err), s') \<Rightarrow> if err \<noteq> None then ((None, err), s') else ((eps, err), s'))"

definition NoopRegistry_ApplyChanges ::
  "('st, 'err) NoopRegistry \<Rightarrow> string \<Rightarrow> Changes \<Rightarrow> 'st \<Rightarrow> 'err option \<times> 'st" where
  "NoopRegistry_ApplyChanges im zone changes s = ApplyChanges (provider im) zone changes s"

text \<open>
  An in-memory provider to run the registry on: its state is the list of change sets it
  has applied; it holds one record, and it fails on the zone \<^verbatim>\<open>down\<close>.
\<close>

definition mem_provider :: "(Changes list, string) Provider" where
  "mem_provider =
     \<lparr>Records = (\<lambda>zone s. if zone = ''down'' then ((Some [ep_mine], Some ''unreachable''), s)
                           else ((Some [ep_mine], None), s)),
      ApplyChanges = (\<lambda>zone changes s. if zone = ''down'' then (Some ''unreachable'', s)
                           else (None, s @ [changes]))\<rparr>"

definition one_create :: Changes where
  "one_create = \<lparr>Create = [ep_mine], UpdateOld = [], UpdateNew = [], Delete = []\<rparr>"

section \<open>source: ingressSource\<close>

text \<open>
  The fields of the Kubernetes \<^verbatim>\<open>v1beta1.Ingress\<close> object that the source reads:
  the annotations, the hosts of \<^verbatim>\<open>Spec.Rules\<close> and the entries of
  \<^verbatim>\<open>Status.LoadBalancer.Ingress\<close>.
\<close>

record LoadBalancerIngress =
  IP :: string
  Hostname :: string

record Ingress =
  Annotations :: strmap
  Rules :: "string list"
  LoadBalancer :: "LoadBalancerIngress list"

text \<open>
  The inner loop over the load balancer entries, shared by \<^verbatim>\<open>endpointsFromTemplate\<close>
  and \<^verbatim>\<open>endpointsFromIngress\<close>. \<^verbatim>\<open>endpoint.NewEndpoint\<close> is declared outside the
  source files and is a parameter.
\<close>

fun lb_endpoints :: "(string \<Rightarrow> string \<Rightarrow> string \<Rightarrow> 'ep) \<Rightarrow> string \<Rightarrow> 'ep list
    \<Rightarrow> LoadBalancerIngress list \<Rightarrow> 'ep list" where
  "lb_endpoints NewEndpoint hostname endpoints [] = endpoints"
| "lb_endpoints NewEndpoint hostname endpoints (lb # lbs) =
     (let endpoints1 = (if IP lb \<noteq> [] then endpoints @ [NewEndpoint hostname (IP lb) []]
                        else endpoints);
          endpoints2 = (if Hostname lb \<noteq> []
                        then endpoints1 @ [NewEndpoint hostname (Hostname lb) []]
                        else endpoints1)
      in lb_endpoints NewEndpoint hostname endpoints2 lbs)"

text \<open>
  \<^verbatim>\<open>sc.fqdntemplate.Execute(&buf, ing)\<close> belongs to Go's \<^verbatim>\<open>html/template\<close>: a
  template is modelled by what executing it gives, the contents of the buffer and the error.
\<close>

type_synonym 'err Template = "Ingress \<Rightarrow> string \<times> 'err option"

definition endpointsFromTemplate ::
  "(string \<Rightarrow> string \<Rightarrow> string \<Rightarrow> 'ep) \<Rightarrow> 'err Template \<Rightarrow> Ingress \<Rightarrow> 'ep list" where
  "endpointsFromTemplate NewEndpoint fqdntemplate ing =
     (case fqdntemplate ing of
        (buf, err) \<Rightarrow>
          if err \<noteq> None then lb_endpoints NewEndpoint buf [] (LoadBalancer ing) else [])"

fun rules_endpoints :: "(string \<Rightarrow> string \<Rightarrow> string \<Rightarrow> 'ep) \<Rightarrow> 'ep list
    \<Rightarrow> LoadBalancerIngress list \<Rightarrow> string list \<Rightarrow> 'ep list" where
  "rules_endpoints NewEndpoint endpoints lbs [] = endpoints"
| "rules_endpoints NewEndpoint endpoints lbs (host # rules) =
     (if host = [] then rules_endpoints NewEndpoint endpoints lbs rules
      else rules_endpoints NewEndpoint (lb_endpoints NewEndpoint host endpoints lbs) lbs rules)"

text \<open>
  The constants \<^verbatim>\<open>controllerAnnotationKey\<close> and \<^verbatim>\<open>controllerAnnotationValue\<close>
  are declared outside the source files and are parameters.
\<close>

definition endpointsFromIngress ::
  "string \<Rightarrow> string \<Rightarrow> (string \<Rightarrow> string \<Rightarrow> string \<Rightarrow> 'ep) \<Rightarrow> Ingress \<Rightarrow> 'ep list" where
  "endpointsFromIngress controllerAnnotationKey controllerAnnotationValue NewEndpoint ing =
     (case map_of (Annotations ing) controllerAnnotationKey of
        Some controller \<Rightarrow>
          if controller \<noteq> controllerAnnotationValue then []
          else rules_endpoints NewEndpoint [] (LoadBalancer ing) (Rules ing)
      | None \<Rightarrow> rules_endpoints NewEndpoint [] (LoadBalancer ing) (Rules ing))"

text \<open>
  The body of the loop of \<^verbatim>\<open>ingressSource.Endpoints\<close>: what one ingress adds to
  \<^verbatim>\<open>endpoints\<close>. The template of the source is \<^const>\<open>None\<close> for \<^verbatim>\<open>nil\<close>.
\<close>

definition ingress_contribution ::
  "string \<Rightarrow> string \<Rightarrow> (string \<Rightarrow> string \<Rightarrow> string \<Rightarrow> 'ep) \<Rightarrow> 'err Template option
    \<Rightarrow> Ingress \<Rightarrow> 'ep list" where
  "ingress_contribution key val NewEndpoint fqdntemplate ing =
     (let ingEndpoints = endpointsFromIngress key val NewEndpoint ing
      in case fqdntemplate of
           Some tmpl \<Rightarrow>
             if length ingEndpoints = 0 then endpointsFromTemplate NewEndpoint tmpl ing
             else ingEndpoints
         | None \<Rightarrow> ingEndpoints)"

fun Endpoints_loop ::
  "string \<Rightarrow> string \<Rightarrow> (string \<Rightarrow> string \<Rightarrow> string \<Rightarrow> 'ep) \<Rightarrow> 'err Template option
    \<Rightarrow> 'ep list \<Rightarrow> Ingress list \<Rightarrow> 'ep list" where
  "Endpoints_loop key val NewEndpoint fqdntemplate endpoints [] = endpoints"
| "Endpoints_loop key val NewEndpoint fqdntemplate endpoints (ing # items) =
     Endpoints_loop key val NewEndpoint fqdntemplate
       (endpoints @ ingress_contribution key val NewEndpoint fqdntemplate ing) items"

text \<open>
  \<^verbatim>\<open>ingressSource.Endpoints\<close>, given the result \<^verbatim>\<open>(ingresses.Items, err)\<close> of listing
  the ingresses through the Kubernetes client.
\<close>

definition ingressSource_Endpoints ::
  "string \<Rightarrow> string \<Rightarrow> (string \<Rightarrow> string \<Rightarrow> string \<Rightarrow> 'ep) \<Rightarrow> 'err Template option
    \<Rightarrow> Ingress list \<times> 'err option \<Rightarrow> 'ep list option \<times> 'err option" where
  "ingressSource_Endpoints key val NewEndpoint fqdntemplate listed =
     (case listed of
        (items, err) \<Rightarrow>
          if err \<noteq> None then (None, err)
          else (Some (Endpoints_loop key val NewEndpoint fqdntemplate [] items), None))"

text \<open>
  An ingress without rule hosts and with one load balancer address; a template that
  executes and one that fails after writing a name; a constructor of endpoints as triples.
\<close>

definition ing_nohost :: Ingress where
  "ing_nohost = \<lparr>Annotations = [], Rules = [],
     LoadBalancer = [\<lparr>IP = ''8.8.8.8'', Hostname = []\<rparr>]\<rparr>"

definition tmpl_ok :: "string Template" where
  "tmpl_ok ing = (''fake.example.org'', None)"

definition tmpl_failing :: "string Template" where
  "tmpl_failing ing = (''fake'', Some ''template: no such field'')"

definition triple :: "string \<Rightarrow> string \<Rightarrow> string \<Rightarrow> string \<times> string \<times> string" where
  "triple hostname target recordType = (hostname, target, recordType)"

section \<open>provider/infoblox: findZone\<close>

text \<open>
  \<^verbatim>\<open>ibclient.ZoneAuth\<close> belongs to the Infoblox client library; the provider reads its
  fields \<^verbatim>\<open>Ref\<close>, \<^verbatim>\<open>Fqdn\<close> and \<^verbatim>\<open>View\<close>.
\<close>

record ZoneAuth =
  Ref :: string
  Fqdn :: string
  View :: string

text \<open>
  The loop of \<^verbatim>\<open>findZone\<close>. \<^verbatim>\<open>result\<close> is a pointer into \<^verbatim>\<open>zones\<close>, \<^const>\<open>None\<close>
  for \<^verbatim>\<open>nil\<close>; the zones are only read, so the pointer is modelled by the zone it points
  to. \<^verbatim>\<open>strings.HasSuffix\<close> is \<^const>\<open>suffix\<close>, \<^verbatim>\<open>len\<close> the number of bytes, and
  \<^verbatim>\<open>strings.EqualFold\<close> (Unicode case folding, Go standard library) is a parameter.
\<close>

fun findZone_loop :: "(string \<Rightarrow> string \<Rightarrow> bool) \<Rightarrow> string \<Rightarrow> ZoneAuth option \<Rightarrow> ZoneAuth list
    \<Rightarrow> ZoneAuth option" where
  "findZone_loop EqualFold name result [] = result"
| "findZone_loop EqualFold name result (zone # zones) =
     (if suffix (''.'' @ Fqdn zone) name then
        (if result = None \<or> length (Fqdn zone) > length (Fqdn (the result))
         then findZone_loop EqualFold name (Some zone) zones
         else findZone_loop EqualFold name result zones)
      else if EqualFold name (Fqdn zone) then
        (if result = None \<or> length (Fqdn zone) > length (Fqdn (the result))
         then findZone_loop EqualFold name (Some zone) zones
         else findZone_loop EqualFold name result zones)
      else findZone_loop EqualFold name result zones)"

definition findZone :: "(string \<Rightarrow> string \<Rightarrow> bool) \<Rightarrow> ZoneAuth list \<Rightarrow> string \<Rightarrow> ZoneAuth option" where
  "findZone EqualFold zones name = findZone_loop EqualFold name None zones"

text \<open>
  Case folding of ASCII letters: an instance of \<^verbatim>\<open>strings.EqualFold\<close> to run
  \<^const>\<open>findZone\<close> on, and the comparison of DNS names in the plan.
\<close>

definition lower_char :: "char \<Rightarrow> char" where
  "lower_char c =
     (let n = (of_char c :: nat) in if 65 \<le> n \<and> n \<le> 90 then char_of (n + 32) else c)"

definition ascii_fold :: "string \<Rightarrow> string \<Rightarrow> bool" where
  "ascii_fold s t = (map lower_char s = map lower_char t)"

definition zone_org :: ZoneAuth where
  "zone_org = \<lparr>Ref = ''zone/1'', Fqdn = ''example.org'', View = ''default''\<rparr>"

definition zone_sub :: ZoneAuth where
  "zone_sub = \<lparr>Ref = ''zone/2'', Fqdn = ''sub.example.org'', View = ''default''\<rparr>"

section \<open>plan: Calculate\<close>

text \<open>
  Modelled from the spec: \<^verbatim>\<open>Plan.Calculate\<close> and the policies of the \<^verbatim>\<open>plan\<close>
  package are not among the source files, which hold only the tests of that package. The
  definitions of this section follow the Plan Calculator of the specification (section 4.1)
  sentence by sentence; each comment quotes the sentence it models.
\<close>

datatype Policy = SyncPolicy | UpsertOnlyPolicy | CreateOnlyPolicy

fun Policy_Apply :: "Policy \<Rightarrow> Changes \<Rightarrow> Changes" where
  \<comment> \<open>"The built-in UpsertOnly drops Delete; Sync is identity; CreateOnly drops both Delete
      and all updates."\<close>
  "Policy_Apply SyncPolicy changes = changes"
| "Policy_Apply UpsertOnlyPolicy changes = changes\<lparr>Delete := []\<rparr>"
| "Policy_Apply CreateOnlyPolicy changes =
     changes\<lparr>UpdateOld := [], UpdateNew := [], Delete := []\<rparr>"

type_synonym key = "string \<times> string"

definition fold_name :: "string \<Rightarrow> string" where
  \<comment> \<open>"Case-insensitive matching on dns_name."\<close>
  "fold_name name = map lower_char name"

definition current_key :: "LEndpoint \<Rightarrow> key" where
  \<comment> \<open>"Key both lists by (dns_name, record_type)."\<close>
  "current_key c = (fold_name (DNSName c), RecordType c)"

definition desired_type :: "(string \<Rightarrow> 'ip option) \<Rightarrow> LEndpoint list \<Rightarrow> LEndpoint \<Rightarrow> string" where
  \<comment> \<open>"If record_type is empty in desired, inherit from the current endpoint with the same
      name when one exists; otherwise default to A if any target parses as an IP literal,
      else CNAME."\<close>
  "desired_type ParseIP current d =
     (if RecordType d \<noteq> [] then RecordType d
      else case find (\<lambda>c. fold_name (DNSName c) = fold_name (DNSName d)) current of
             Some c \<Rightarrow> RecordType c
           | None \<Rightarrow> if list_ex (\<lambda>t. ParseIP t \<noteq> None) (Targets d)
                     then RecordTypeA else RecordTypeCNAME)"

definition desired_key :: "(string \<Rightarrow> 'ip option) \<Rightarrow> LEndpoint list \<Rightarrow> LEndpoint \<Rightarrow> key" where
  "desired_key ParseIP current d = (fold_name (DNSName d), desired_type ParseIP current d)"

text \<open>
  The keyed lists. Reading an association list with \<^const>\<open>map_of\<close> gives the first entry
  of a key: "Duplicate keys in either input: deterministic -- keep the first occurrence, log
  and discard the rest."
\<close>

definition keyed_current :: "LEndpoint list \<Rightarrow> (key \<times> LEndpoint) list" where
  "keyed_current current = map (\<lambda>c. (current_key c, c)) current"

definition keyed_desired ::
  "(string \<Rightarrow> 'ip option) \<Rightarrow> LEndpoint list \<Rightarrow> LEndpoint list \<Rightarrow> (key \<times> LEndpoint) list" where
  "keyed_desired ParseIP current desired = map (\<lambda>d. (desired_key ParseIP current d, d)) desired"

definition current_at :: "LEndpoint list \<Rightarrow> key \<Rightarrow> LEndpoint option" where
  "current_at current k = map_of (keyed_current current) k"

definition desired_at ::
  "(string \<Rightarrow> 'ip option) \<Rightarrow> LEndpoint list \<Rightarrow> LEndpoint list \<Rightarrow> key \<Rightarrow> LEndpoint option" where
  \<comment> \<open>"Empty target set on a desired endpoint: treated as a request to delete (drop from
      desired, treat as absent)."\<close>
  "desired_at ParseIP current desired k =
     (case map_of (keyed_desired ParseIP current desired) k of
        None \<Rightarrow> None
      | Some d \<Rightarrow> if Targets d = [] then None else Some d)"

definition same_targets :: "string list \<Rightarrow> string list \<Rightarrow> bool" where
  \<comment> \<open>"Targets differ under set-equality (order-insensitive)."\<close>
  "same_targets ts us \<longleftrightarrow> set ts = set us"

definition same_properties :: "strmap \<Rightarrow> strmap \<Rightarrow> bool" where
  \<comment> \<open>"provider_specific differs"; the values are compared as strings.\<close>
  "same_properties ps qs \<longleftrightarrow>
     list_all (\<lambda>k. map_of ps k = map_of qs k) (map fst ps @ map fst qs)"

definition needs_update :: "LEndpoint \<Rightarrow> LEndpoint \<Rightarrow> bool" where
  \<comment> \<open>"Targets differ under set-equality -> update. ttl differs and the desired ttl is
      non-zero -> update. provider_specific differs -> update. Otherwise -> no change."\<close>
  "needs_update c d \<longleftrightarrow>
     \<not> same_targets (Targets c) (Targets d)
     \<or> (RecordTTL d \<noteq> RecordTTL c \<and> RecordTTL d \<noteq> 0)
     \<or> \<not> same_properties (ProviderSpecific c) (ProviderSpecific d)"

definition update_new :: "LEndpoint \<Rightarrow> LEndpoint \<Rightarrow> LEndpoint" where
  \<comment> \<open>"take the desired endpoint, inherit labels from the current endpoint (desired labels
      override when set), inherit ttl from current when desired ttl is 0, inherit
      record_type from current when desired is empty."\<close>
  "update_new c d =
     d\<lparr>Labels := Labels d @ Labels c,
       RecordTTL := (if RecordTTL d = 0 then RecordTTL c else RecordTTL d),
       RecordType := (if RecordType d = [] then RecordType c else RecordType d)\<rparr>"

text \<open>What one key contributes: "For each key: in desired only -> Create; in current
  only -> Delete; in both -> compute whether an update is needed."\<close>

definition create_for :: "LEndpoint option \<Rightarrow> LEndpoint option \<Rightarrow> LEndpoint option" where
  "create_for c d = (case (c, d) of (None, Some d') \<Rightarrow> Some d' | _ \<Rightarrow> None)"

definition delete_for :: "LEndpoint option \<Rightarrow> LEndpoint option \<Rightarrow> LEndpoint option" where
  "delete_for c d = (case (c, d) of (Some c', None) \<Rightarrow> Some c' | _ \<Rightarrow> None)"

definition update_for ::
  "LEndpoint option \<Rightarrow> LEndpoint option \<Rightarrow> (LEndpoint \<times> LEndpoint) option" where
  "update_for c d =
     (case (c, d) of
        (Some c', Some d') \<Rightarrow> if needs_update c' d' then Some (c', update_new c' d') else None
      | _ \<Rightarrow> None)"

definition plan_keys ::
  "(string \<Rightarrow> 'ip option) \<Rightarrow> LEndpoint list \<Rightarrow> LEndpoint list \<Rightarrow> key list" where
  \<comment> \<open>"the Changes sequences are deterministically ordered given the same inputs (sort by
      (dns_name, record_type))."\<close>
  "plan_keys ParseIP current desired =
     sorted_list_of_set
       (set (map fst (keyed_current current) @ map fst (keyed_desired ParseIP current desired)))"

definition plan_updates ::
  "(string \<Rightarrow> 'ip option) \<Rightarrow> LEndpoint list \<Rightarrow> LEndpoint list \<Rightarrow> (LEndpoint \<times> LEndpoint) list" where
  "plan_updates ParseIP current desired =
     List.map_filter
       (\<lambda>k. update_for (current_at current k) (desired_at ParseIP current desired k))
       (plan_keys ParseIP current desired)"

definition plan_changes ::
  "(string \<Rightarrow> 'ip option) \<Rightarrow> LEndpoint list \<Rightarrow> LEndpoint list \<Rightarrow> Changes" where
  \<comment> \<open>"For each update, position i of UpdateOld and UpdateNew refer to the same key."\<close>
  "plan_changes ParseIP current desired =
     \<lparr>Create = List.map_filter
         (\<lambda>k. create_for (current_at current k) (desired_at ParseIP current desired k))
         (plan_keys ParseIP current desired),
      UpdateOld = map fst (plan_updates ParseIP current desired),
      UpdateNew = map snd (plan_updates ParseIP current desired),
      Delete = List.map_filter
         (\<lambda>k. delete_for (current_at current k) (desired_at ParseIP current desired k))
         (plan_keys ParseIP current desired)\<rparr>"

definition Calculate ::
  "(string \<Rightarrow> 'ip option) \<Rightarrow> Policy list \<Rightarrow> LEndpoint list \<Rightarrow> LEndpoint list \<Rightarrow> Changes" where
  \<comment> \<open>"Apply each Policy in order to the Changes."\<close>
  "Calculate ParseIP policies current desired =
     fold Policy_Apply policies (plan_changes ParseIP current desired)"

text \<open>A constructor of endpoints without labels, as \<^verbatim>\<open>endpoint.NewEndpointWithTTL\<close> in the tests.\<close>

definition endpoint_of :: "string \<Rightarrow> string list \<Rightarrow> string \<Rightarrow> nat \<Rightarrow> LEndpoint" where
  "endpoint_of name targets type ttl =
     \<lparr>DNSName = name, Targets = targets, RecordType = type, RecordTTL = ttl,
      Labels = [], ProviderSpecific = []\<rparr>"

text \<open>
  The endpoints of \<^verbatim>\<open>PlanTestSuite\<close> and of the TTL cases of \<^verbatim>\<open>TestCalculate\<close>,
  and endpoints without a target and without a record type.
\<close>

definition fooV1Cname :: LEndpoint where
  "fooV1Cname = endpoint_of ''foo'' [''v1''] ''CNAME'' 0"

definition fooV2Cname :: LEndpoint where
  "fooV2Cname = endpoint_of ''foo'' [''v2''] ''CNAME'' 0"

definition bar127A :: LEndpoint where
  "bar127A = endpoint_of ''bar'' [''127.0.0.1''] ''A'' 0"











section \<open>internal/testutils: SameEndpoints\<close>

text \<open>
  \<^verbatim>\<open>endpoint.Endpoint\<close> as \<^verbatim>\<open>endpoint/endpoint.go\<close> declares it, the struct that
  \<^verbatim>\<open>testutils\<close> compares.
\<close>

record Endpoint =
  DNSName :: string
  Target :: string

definition SameEndpoint :: "Endpoint \<Rightarrow> Endpoint \<Rightarrow> bool" where
  "SameEndpoint a b \<longleftrightarrow> DNSName a = DNSName b \<and> Target a = Target b"

text \<open>
  The \<^verbatim>\<open>calculator\<close> of \<^verbatim>\<open>SameEndpoints\<close> is a
  \<^verbatim>\<open>map[string]map[string]uint8\<close>: an association list of association lists of
  8-bit words, on which \<^verbatim>\<open>++\<close> and \<^verbatim>\<open>--\<close> wrap around. The inner maps are
  references, so writing a counter writes it in the calculator.
\<close>

type_synonym calculator = "(string \<times> (string \<times> 8 word) list) list"

definition byDNSName :: "calculator \<Rightarrow> string \<Rightarrow> (string \<times> 8 word) list" where
  "byDNSName calculator name = (case map_of calculator name of None \<Rightarrow> [] | Some m \<Rightarrow> m)"

definition set_counter :: "calculator \<Rightarrow> string \<Rightarrow> string \<Rightarrow> 8 word \<Rightarrow> calculator" where
  "set_counter calculator name target v =
     AList.update name (AList.update target v (byDNSName calculator name)) calculator"

definition get_counter :: "calculator \<Rightarrow> string \<Rightarrow> string \<Rightarrow> 8 word" where
  "get_counter calculator name target =
     (case map_of (byDNSName calculator name) target of None \<Rightarrow> 0 | Some v \<Rightarrow> v)"

text \<open>The body of the first loop: both entries are created when absent, then the counter is incremented.\<close>

definition count_record :: "calculator \<Rightarrow> Endpoint \<Rightarrow> calculator" where
  "count_record calculator recordA =
     (let c1 = (if map_of calculator (DNSName recordA) = None
                then AList.update (DNSName recordA) [] calculator else calculator);
          c2 = (if map_of (byDNSName c1 (DNSName recordA)) (Target recordA) = None
                then set_counter c1 (DNSName recordA) (Target recordA) 0 else c1)
      in set_counter c2 (DNSName recordA) (Target recordA)
           (get_counter c2 (DNSName recordA) (Target recordA) + 1))"

fun count_loop :: "calculator \<Rightarrow> Endpoint list \<Rightarrow> calculator" where
  "count_loop calculator [] = calculator"
| "count_loop calculator (recordA # a) = count_loop (count_record calculator recordA) a"

text \<open>
  The second loop; \<^const>\<open>None\<close> is its \<^verbatim>\<open>return false\<close> on a name or a target
  that the calculator does not hold.
\<close>

fun uncount_loop :: "calculator \<Rightarrow> Endpoint list \<Rightarrow> calculator option" where
  "uncount_loop calculator [] = Some calculator"
| "uncount_loop calculator (recordB # b) =
     (if map_of calculator (DNSName recordB) = None then None
      else if map_of (byDNSName calculator (DNSName recordB)) (Target recordB) = None then None
      else uncount_loop
             (set_counter calculator (DNSName recordB) (Target recordB)
                (get_counter calculator (DNSName recordB) (Target recordB) - 1)) b)"

text \<open>The last loops: \<^verbatim>\<open>return false\<close> on a counter that is not zero.\<close>

definition all_zero :: "calculator \<Rightarrow> bool" where
  "all_zero calculator =
     list_all (\<lambda>(name, byName). list_all (\<lambda>(target, byCounter). \<not> byCounter \<noteq> 0) byName)
       calculator"

definition SameEndpoints :: "Endpoint list \<Rightarrow> Endpoint list \<Rightarrow> bool" where
  "SameEndpoints a b =
     (if length a \<noteq> length b then False
      else case uncount_loop (count_loop [] a) b of
             None \<Rightarrow> False
           | Some calculator \<Rightarrow> all_zero calculator)"

text \<open>The pair that \<^const>\<open>SameEndpoint\<close> compares, and two endpoints to run the comparison on.\<close>

definition name_target :: "Endpoint \<Rightarrow> string \<times> string" where
  "name_target e = (DNSName e, Target e)"

definition ep_x :: Endpoint where
  "ep_x = \<lparr>DNSName = ''x'', Target = ''1.1.1.1''\<rparr>"
definition ep_y :: Endpoint where
  "ep_y = \<lparr>DNSName = ''y'', Target = ''2.2.2.2''\<rparr>"

text \<open>
  For the proofs: the counter of a pair, if the calculator holds one, and the calculators
  whose keys are distinct at both levels.
\<close>

definition lookup2 :: "calculator \<Rightarrow> string \<times> string \<Rightarrow> 8 word option" where
  "lookup2 c p = (case map_of c (fst p) of None \<Rightarrow> None | Some m \<Rightarrow> map_of m (snd p))"

definition wf_calc :: "calculator \<Rightarrow> bool" where
  "wf_calc c \<longleftrightarrow> distinct (map fst c) \<and> (\<forall>(n, m) \<in> set c. distinct (map fst m))"

section \<open>Properties\<close>

lemma filterOwnedRecords_loop_filter:
  "filterOwnedRecords_loop ownerID filtered eps =
     filtered @ filter (\<lambda>ep. index_map (Labels ep) OwnerLabelKey = ownerID) eps"
  by (induction eps arbitrary: filtered) simp_all

lemma index_map_eq_iff:
  "index_map m k = v \<longleftrightarrow> map_of m k = Some v \<or> (map_of m k = None \<and> v = [])"
  by (auto simp: index_map_def split: option.splits)

text \<open>
  C1 (as amended). \<^verbatim>\<open>filterOwnedRecords(ownerID, eps)\<close> is the subsequence of
  \<^verbatim>\<open>eps\<close>, in the original order, of the endpoints whose owner label is present and
  equal to \<^verbatim>\<open>ownerID\<close> or, only when \<^verbatim>\<open>ownerID\<close> is the empty string, absent.
  For a non-empty \<^verbatim>\<open>ownerID\<close> every returned endpoint carries the owner label
  \<^verbatim>\<open>ownerID\<close>.
\<close>

theorem filterOwnedRecords_owned:
  "filterOwnedRecords ownerID eps =
     filter (\<lambda>ep. map_of (Labels ep) OwnerLabelKey = Some ownerID
                 \<or> (map_of (Labels ep) OwnerLabelKey = None \<and> ownerID = [])) eps
   \<and> (ownerID \<noteq> [] \<longrightarrow>
        (\<forall>ep \<in> set (filterOwnedRecords ownerID eps).
           map_of (Labels ep) OwnerLabelKey = Some ownerID))"
  by (auto simp: filterOwnedRecords_def filterOwnedRecords_loop_filter index_map_eq_iff)

theorem filterOwnedRecords_owned_witness:
  "''me'' \<noteq> [] \<and> filterOwnedRecords ''me'' [ep_unlabelled, ep_mine, ep_unlabelled] = [ep_mine]
   \<and> map_of (Labels ep_mine) OwnerLabelKey = Some ''me''"
  using filterOwnedRecords_owned [of "''me''" "[ep_unlabelled, ep_mine, ep_unlabelled]"]
  by (simp add: ep_unlabelled_def ep_mine_def OwnerLabelKey_def)

text \<open>
  C1 as stated fails for the empty owner identifier: an endpoint without an owner label
  reads as \<^verbatim>\<open>Labels["owner"] == ""\<close> and is returned.
\<close>

theorem filterOwnedRecords_absent_label_counterexample:
  "map_of (Labels ep_unlabelled) OwnerLabelKey = None
   \<and> ep_unlabelled \<in> set (filterOwnedRecords [] [ep_unlabelled])"
  by (simp add: filterOwnedRecords_def ep_unlabelled_def OwnerLabelKey_def index_map_def)

text \<open>
  C6. For every target, \<^verbatim>\<open>suitableType\<close> and \<^verbatim>\<open>guessRecordType\<close> return
  \<^verbatim>\<open>A\<close> if the target parses as an IP address and \<^verbatim>\<open>CNAME\<close> otherwise, and no
  other value.
\<close>

theorem record_type_default:
  "(ParseIP t \<noteq> None \<longrightarrow> suitableType ParseIP t = ''A'' \<and> guessRecordType ParseIP t = ''A'')
   \<and> (ParseIP t = None \<longrightarrow>
        suitableType ParseIP t = ''CNAME'' \<and> guessRecordType ParseIP t = ''CNAME'')
   \<and> suitableType ParseIP t \<in> {''A'', ''CNAME''}
   \<and> guessRecordType ParseIP t \<in> {''A'', ''CNAME''}"
  by (simp add: suitableType_def guessRecordType_def RecordTypeA_def RecordTypeCNAME_def)

theorem record_type_default_witness:
  "parse_one ''1.2.3.4'' \<noteq> None \<and> suitableType parse_one ''1.2.3.4'' = ''A''
   \<and> guessRecordType parse_one ''1.2.3.4'' = ''A''
   \<and> parse_one ''example.org'' = None \<and> suitableType parse_one ''example.org'' = ''CNAME''
   \<and> guessRecordType parse_one ''example.org'' = ''CNAME''"
  using record_type_default [of parse_one "''1.2.3.4''"]
    record_type_default [of parse_one "''example.org''"]
  by (simp add: parse_one_def)

text \<open>
  C7. \<^verbatim>\<open>NoopRegistry.Records\<close> returns the error of the provider's \<^verbatim>\<open>Records\<close>,
  with the provider's endpoints when that error is \<^verbatim>\<open>nil\<close> and with \<^verbatim>\<open>nil\<close>
  endpoints otherwise, and leaves the provider in the state the call left it in;
  \<^verbatim>\<open>NoopRegistry.ApplyChanges\<close> is the provider's \<^verbatim>\<open>ApplyChanges\<close> on the same
  zone and the same changes.
\<close>

theorem NoopRegistry_passes_through:
  "snd (fst (NoopRegistry_Records im zone s)) = snd (fst (Records (provider im) zone s))
   \<and> snd (NoopRegistry_Records im zone s) = snd (Records (provider im) zone s)
   \<and> (snd (fst (Records (provider im) zone s)) = None \<longrightarrow>
        fst (fst (NoopRegistry_Records im zone s)) = fst (fst (Records (provider im) zone s)))
   \<and> (snd (fst (Records (provider im) zone s)) \<noteq> None \<longrightarrow>
        fst (fst (NoopRegistry_Records im zone s)) = None)
   \<and> NoopRegistry_ApplyChanges im zone changes s = ApplyChanges (provider im) zone changes s"
  by (simp add: NoopRegistry_Records_def NoopRegistry_ApplyChanges_def split: prod.splits)

theorem NoopRegistry_passes_through_witness:
  "snd (fst (Records mem_provider ''org'' [])) = None
   \<and> NoopRegistry_Records \<lparr>provider = mem_provider\<rparr> ''org'' [] = ((Some [ep_mine], None), [])
   \<and> snd (fst (Records mem_provider ''down'' [])) \<noteq> None
   \<and> NoopRegistry_Records \<lparr>provider = mem_provider\<rparr> ''down'' [] = ((None, Some ''unreachable''), [])
   \<and> NoopRegistry_ApplyChanges \<lparr>provider = mem_provider\<rparr> ''org'' one_create [] = (None, [one_create])
   \<and> NoopRegistry_ApplyChanges \<lparr>provider = mem_provider\<rparr> ''down'' one_create [] = (Some ''unreachable'', [])"
  using NoopRegistry_passes_through [of "\<lparr>provider = mem_provider\<rparr>" "''org''" "[]" one_create]
    NoopRegistry_passes_through [of "\<lparr>provider = mem_provider\<rparr>" "''down''" "[]" one_create]
  by (simp add: mem_provider_def NoopRegistry_Records_def prod_eq_iff)

text \<open>
  C8. For an ingress from which \<^verbatim>\<open>endpointsFromIngress\<close> yields no endpoint,
  \<^verbatim>\<open>endpointsFromTemplate\<close> yields endpoints only when executing the template returns
  an error; when the template executes without error it returns no endpoint, and the
  ingress adds nothing to the endpoints of the source.
\<close>

theorem endpointsFromTemplate_only_on_error:
  assumes "endpointsFromIngress key val NewEndpoint ing = []"
  shows "(endpointsFromTemplate NewEndpoint tmpl ing \<noteq> [] \<longrightarrow> snd (tmpl ing) \<noteq> None)
       \<and> (snd (tmpl ing) = None \<longrightarrow>
            endpointsFromTemplate NewEndpoint tmpl ing = []
            \<and> ingress_contribution key val NewEndpoint (Some tmpl) ing = [])"
  using assms
  by (auto simp: endpointsFromTemplate_def ingress_contribution_def split: prod.splits)

theorem endpointsFromTemplate_only_on_error_witness:
  "endpointsFromIngress ''controller'' ''dns-controller'' triple ing_nohost = []
   \<and> snd (tmpl_ok ing_nohost) = None
   \<and> endpointsFromTemplate triple tmpl_ok ing_nohost = []
   \<and> ingress_contribution ''controller'' ''dns-controller'' triple (Some tmpl_ok) ing_nohost = []
   \<and> snd (tmpl_failing ing_nohost) \<noteq> None
   \<and> endpointsFromTemplate triple tmpl_failing ing_nohost = [(''fake'', ''8.8.8.8'', [])]"
proof -
  have h: "endpointsFromIngress ''controller'' ''dns-controller'' triple ing_nohost = []"
    by (simp add: endpointsFromIngress_def ing_nohost_def)
  show ?thesis
    using h endpointsFromTemplate_only_on_error [OF h, of tmpl_ok]
      endpointsFromTemplate_only_on_error [OF h, of tmpl_failing]
    by (simp add: tmpl_ok_def tmpl_failing_def endpointsFromTemplate_def ing_nohost_def triple_def)
qed

lemma findZone_loop_inv:
  "findZone_loop ef name r zs = res \<Longrightarrow>
   (case res of
      None \<Rightarrow> r = None \<and> (\<forall>z \<in> set zs. \<not> (suffix (''.'' @ Fqdn z) name \<or> ef name (Fqdn z)))
    | Some z \<Rightarrow> (r = Some z \<or> (z \<in> set zs \<and> (suffix (''.'' @ Fqdn z) name \<or> ef name (Fqdn z))))
        \<and> (\<forall>z' \<in> set zs. suffix (''.'' @ Fqdn z') name \<or> ef name (Fqdn z') \<longrightarrow>
               length (Fqdn z') \<le> length (Fqdn z))
        \<and> (\<forall>r'. r = Some r' \<longrightarrow> length (Fqdn r') \<le> length (Fqdn z)))"
proof (induction zs arbitrary: r)
  case Nil
  then show ?case by (auto split: option.splits)
next
  case (Cons zone zones)
  show ?case
  proof (cases "(suffix (''.'' @ Fqdn zone) name \<or> ef name (Fqdn zone)) \<and> (r = None \<or> length (Fqdn zone) > length (Fqdn (the r)))")
    case True
    then have "findZone_loop ef name (Some zone) zones = res"
      using Cons.prems by (auto split: if_splits)
    from Cons.IH [OF this] True show ?thesis
      by (auto split: option.splits)
  next
    case False
    then have "findZone_loop ef name r zones = res"
      using Cons.prems by (auto split: if_splits)
    from Cons.IH [OF this] False show ?thesis
      by (auto split: option.splits) 
  qed
qed

text \<open>
  C10. When \<^verbatim>\<open>findZone\<close> returns a zone, the zone is one of the list, the name ends
  with a dot followed by the zone's \<^verbatim>\<open>Fqdn\<close> or equals it under case folding, and no
  matching zone of the list has a longer \<^verbatim>\<open>Fqdn\<close>; it returns \<^verbatim>\<open>nil\<close> exactly when
  no zone of the list matches.
\<close>

theorem findZone_longest_match:
  "(findZone ef zones name = Some z \<longrightarrow>
      z \<in> set zones
      \<and> (suffix (''.'' @ Fqdn z) name \<or> ef name (Fqdn z))
      \<and> (\<forall>z' \<in> set zones. suffix (''.'' @ Fqdn z') name \<or> ef name (Fqdn z') \<longrightarrow>
             length (Fqdn z') \<le> length (Fqdn z)))
   \<and> (findZone ef zones name = None \<longleftrightarrow>
        (\<forall>z' \<in> set zones. \<not> (suffix (''.'' @ Fqdn z') name \<or> ef name (Fqdn z'))))"
proof (cases "findZone ef zones name")
  case None
  from findZone_loop_inv [OF None [unfolded findZone_def]] None show ?thesis by simp
next
  case (Some a)
  from findZone_loop_inv [OF Some [unfolded findZone_def]] Some show ?thesis by auto
qed

theorem findZone_longest_match_witness:
  "findZone ascii_fold [zone_org, zone_sub] ''www.sub.example.org'' = Some zone_sub
   \<and> zone_sub \<in> set [zone_org, zone_sub]
   \<and> suffix (''.'' @ Fqdn zone_sub) ''www.sub.example.org''
   \<and> suffix (''.'' @ Fqdn zone_org) ''www.sub.example.org''
   \<and> length (Fqdn zone_org) \<le> length (Fqdn zone_sub)
   \<and> findZone ascii_fold [zone_org, zone_sub] ''Example.ORG'' = Some zone_org
   \<and> ascii_fold ''Example.ORG'' (Fqdn zone_org)
   \<and> findZone ascii_fold [zone_org, zone_sub] ''example.com'' = None"
proof -
  have a: "findZone ascii_fold [zone_org, zone_sub] ''www.sub.example.org'' = Some zone_sub"
    by code_simp
  have b: "findZone ascii_fold [zone_org, zone_sub] ''Example.ORG'' = Some zone_org"
    by code_simp
  have c: "findZone ascii_fold [zone_org, zone_sub] ''example.com'' = None"
    by code_simp
  have d: "suffix (''.'' @ Fqdn zone_org) ''www.sub.example.org''"
    by code_simp
  have e: "suffix (''.'' @ Fqdn zone_sub) ''www.sub.example.org''"
    by code_simp
  have f: "ascii_fold ''Example.ORG'' (Fqdn zone_org)"
    by code_simp
  have g: "length (Fqdn zone_org) \<le> length (Fqdn zone_sub)"
    using findZone_longest_match [of ascii_fold "[zone_org, zone_sub]" "''www.sub.example.org''" zone_sub]
      a d by simp
  from a b c d e f g show ?thesis by simp
qed

lemma set_update_subset: "set (AList.update k v al) \<subseteq> insert (k, v) (set al)"
  by (induction al) auto

lemma wf_update:
  "wf_calc c \<Longrightarrow> distinct (map fst m) \<Longrightarrow> wf_calc (AList.update n m c)"
  unfolding wf_calc_def using set_update_subset [of n m c]
  by (auto simp: distinct_update)

lemma wf_byDNSName: "wf_calc c \<Longrightarrow> distinct (map fst (byDNSName c n))"
  by (auto simp: wf_calc_def byDNSName_def dest!: map_of_SomeD split: option.splits)

lemma wf_set_counter: "wf_calc c \<Longrightarrow> wf_calc (set_counter c n t v)"
  unfolding set_counter_def by (intro wf_update distinct_update wf_byDNSName)

lemma lookup2_set_counter:
  "lookup2 (set_counter c n t v) p = (if p = (n, t) then Some v else lookup2 c p)"
  by (cases p) (auto simp: lookup2_def set_counter_def update_conv' byDNSName_def split: option.splits)

lemma lookup2_update_empty:
  "map_of c n = None \<Longrightarrow> lookup2 (AList.update n [] c) p = lookup2 c p"
  by (cases p) (auto simp: lookup2_def update_conv' split: option.splits)

lemma get_counter_lookup2:
  "get_counter c n t = (case lookup2 c (n, t) of None \<Rightarrow> 0 | Some v \<Rightarrow> v)"
  by (auto simp: get_counter_def lookup2_def byDNSName_def split: option.splits)

lemma byDNSName_lookup2: "map_of (byDNSName c n) t = lookup2 c (n, t)"
  by (auto simp: lookup2_def byDNSName_def split: option.splits)

lemma wf_count_record: "wf_calc c \<Longrightarrow> wf_calc (count_record c r)"
  by (auto simp: count_record_def Let_def intro!: wf_set_counter wf_update)

lemma lookup2_count_record:
  "lookup2 (count_record c r) p =
     (if p = name_target r then Some ((case lookup2 c p of None \<Rightarrow> 0 | Some v \<Rightarrow> v) + 1)
      else lookup2 c p)"
  by (auto simp: count_record_def Let_def lookup2_set_counter get_counter_lookup2
      byDNSName_lookup2 lookup2_update_empty name_target_def split: option.splits)

lemma wf_count_loop: "wf_calc c \<Longrightarrow> wf_calc (count_loop c a)"
  by (induction a arbitrary: c) (auto simp: wf_count_record)

lemma lookup2_count_loop:
  "lookup2 (count_loop c a) p =
     (if p \<in> name_target ` set a
      then Some ((case lookup2 c p of None \<Rightarrow> 0 | Some v \<Rightarrow> v)
                 + of_nat (count (mset (map name_target a)) p))
      else lookup2 c p)"
proof (induction a arbitrary: c)
  case Nil
  then show ?case by simp
next
  case (Cons r a)
  have z: "\<And>q. q \<notin> name_target ` set a \<Longrightarrow> count (image_mset name_target (mset a)) q = 0"
    by (simp add: count_eq_zero_iff)
  show ?case
    by (auto simp: Cons.IH lookup2_count_record z split: option.splits)
qed

lemma wf_empty: "wf_calc []" by (simp add: wf_calc_def)

lemma lookup2_empty: "lookup2 [] p = None" by (simp add: lookup2_def)

lemma uncount_loop_None:
  "uncount_loop c b = None \<longleftrightarrow> (\<exists>r \<in> set b. lookup2 c (name_target r) = None)"
proof (induction b arbitrary: c)
  case Nil
  then show ?case by simp
next
  case (Cons r b)
  have "map_of c (DNSName r) = None \<or> map_of (byDNSName c (DNSName r)) (Target r) = None
        \<longleftrightarrow> lookup2 c (name_target r) = None"
    by (auto simp: lookup2_def byDNSName_def name_target_def split: option.splits)
  moreover have "lookup2 c (name_target r) \<noteq> None \<Longrightarrow>
      (lookup2 (set_counter c (DNSName r) (Target r) v) p = None) = (lookup2 c p = None)" for v p
    by (simp add: lookup2_set_counter name_target_def)
  ultimately show ?case
    by (cases "lookup2 c (name_target r) = None") (auto simp: Cons.IH)
qed

lemma uncount_loop_Some:
  "uncount_loop c b = Some c' \<Longrightarrow> wf_calc c \<Longrightarrow>
     wf_calc c' \<and>
     (\<forall>p. lookup2 c' p =
        map_option (\<lambda>v. v - of_nat (count (mset (map name_target b)) p)) (lookup2 c p))"
proof (induction b arbitrary: c)
  case Nil
  then show ?case by (simp add: option.map_ident)
next
  case (Cons r b)
  let ?c1 = "set_counter c (DNSName r) (Target r) (get_counter c (DNSName r) (Target r) - 1)"
  from Cons.prems have ok: "lookup2 c (name_target r) \<noteq> None" and rest: "uncount_loop ?c1 b = Some c'"
    by (auto simp: lookup2_def byDNSName_def name_target_def split: option.splits if_splits)
  from Cons.IH [OF rest wf_set_counter [OF Cons.prems(2)]]
  have wf: "wf_calc c'" and
    look: "\<And>p. lookup2 c' p =
        map_option (\<lambda>v. v - of_nat (count (mset (map name_target b)) p)) (lookup2 ?c1 p)"
    by auto
  show ?case
  proof (intro conjI allI)
    show "wf_calc c'" by (rule wf)
    fix p
    show "lookup2 c' p =
        map_option (\<lambda>v. v - of_nat (count (mset (map name_target (r # b))) p)) (lookup2 c p)"
      using ok
      by (auto simp: look lookup2_set_counter get_counter_lookup2 name_target_def
          split: option.splits)
  qed
qed

lemma all_zero_iff:
  assumes "wf_calc c"
  shows "all_zero c \<longleftrightarrow> (\<forall>p v. lookup2 c p = Some v \<longrightarrow> v = 0)"
proof
  assume az: "all_zero c"
  show "\<forall>p v. lookup2 c p = Some v \<longrightarrow> v = 0"
  proof (intro allI impI)
    fix p v assume "lookup2 c p = Some v"
    then obtain m where m: "map_of c (fst p) = Some m" and v: "map_of m (snd p) = Some v"
      by (auto simp: lookup2_def split: option.splits)
    from m have "(fst p, m) \<in> set c" by (rule map_of_SomeD)
    moreover from v have "(snd p, v) \<in> set m" by (rule map_of_SomeD)
    ultimately show "v = 0" using az by (auto simp: all_zero_def list_all_iff)
  qed
next
  assume h: "\<forall>p v. lookup2 c p = Some v \<longrightarrow> v = 0"
  show "all_zero c"
    unfolding all_zero_def list_all_iff
  proof (clarsimp)
    fix n m t v assume nm: "(n, m) \<in> set c" and tv: "(t, v) \<in> set m"
    from assms nm have "map_of c n = Some m" by (auto simp: wf_calc_def)
    moreover from assms nm have "distinct (map fst m)" by (auto simp: wf_calc_def)
    with tv have "map_of m t = Some v" by simp
    ultimately have "lookup2 c (n, t) = Some v" by (simp add: lookup2_def)
    with h show "v = 0" by blast
  qed
qed

lemma SameEndpoints_iff:
  "SameEndpoints a b \<longleftrightarrow>
     length a = length b
     \<and> name_target ` set b \<subseteq> name_target ` set a
     \<and> (\<forall>p \<in> name_target ` set a.
          (of_nat (count (mset (map name_target a)) p) :: 8 word)
          = of_nat (count (mset (map name_target b)) p))"
proof (cases "length a = length b")
  case False
  then show ?thesis by (simp add: SameEndpoints_def)
next
  case len: True
  let ?c = "count_loop [] a"
  have wfc: "wf_calc ?c" by (rule wf_count_loop [OF wf_empty])
  have lc: "\<And>p. lookup2 ?c p =
     (if p \<in> name_target ` set a then Some (of_nat (count (mset (map name_target a)) p)) else None)"
    by (simp add: lookup2_count_loop lookup2_empty)
  show ?thesis
  proof (cases "uncount_loop ?c b")
    case None
    then have "\<not> name_target ` set b \<subseteq> name_target ` set a"
      by (auto simp: uncount_loop_None lc split: if_splits)
    with None len show ?thesis by (simp add: SameEndpoints_def)
  next
    case (Some c')
    then have sub: "name_target ` set b \<subseteq> name_target ` set a"
      using uncount_loop_None [of ?c b] by (auto simp: lc split: if_splits)
    from uncount_loop_Some [OF Some wfc]
    have wf': "wf_calc c'" and
      l': "\<And>p. lookup2 c' p =
        map_option (\<lambda>v. v - of_nat (count (mset (map name_target b)) p)) (lookup2 ?c p)"
      by auto
    have "all_zero c' \<longleftrightarrow> (\<forall>p \<in> name_target ` set a.
          (of_nat (count (mset (map name_target a)) p) :: 8 word)
          = of_nat (count (mset (map name_target b)) p))"
    proof -
      have "all_zero c' \<longleftrightarrow> (\<forall>p. p \<in> name_target ` set a \<longrightarrow>
          (of_nat (count (mset (map name_target a)) p) :: 8 word)
          - of_nat (count (mset (map name_target b)) p) = 0)"
        unfolding all_zero_iff [OF wf'] l' lc by (auto split: if_splits)
      then show ?thesis unfolding Ball_def by simp
    qed
    with Some len sub show ?thesis by (simp add: SameEndpoints_def)
  qed
qed

lemma count_eq_size_only:
  assumes "count A p = size A" and "q \<in># A"
  shows "q = p"
proof (rule ccontr)
  assume "q \<noteq> p"
  have "size A = size (filter_mset (\<lambda>x. x = p) A) + size (filter_mset (\<lambda>x. x \<noteq> p) A)"
    by (metis multiset_partition size_union)
  moreover have "size (filter_mset (\<lambda>x. x = p) A) = count A p"
    by (simp add: filter_eq_replicate_mset)
  moreover have "q \<in># filter_mset (\<lambda>x. x \<noteq> p) A"
    using assms(2) \<open>q \<noteq> p\<close> by simp
  then have "size (filter_mset (\<lambda>x. x \<noteq> p) A) > 0"
    by (metis nonempty_has_size empty_iff set_mset_empty)
  ultimately show False using assms(1) by linarith
qed

lemma word8_of_nat_eq:
  "(of_nat m :: 8 word) = of_nat n \<longleftrightarrow> m mod 256 = n mod 256"
  by (simp add: word_of_nat_eq_iff take_bit_eq_mod)

lemma mod256_cases:
  assumes "m mod 256 = n mod 256" "m \<le> 256" "n \<le> 256" "m \<noteq> (n::nat)"
  shows "(m = 0 \<and> n = 256) \<or> (m = 256 \<and> n = 0)"
proof -
  have "m < 256 \<or> m = 256" "n < 256 \<or> n = 256" using assms(2,3) by auto
  then show ?thesis using assms(1,4) by (elim disjE) auto
qed

lemma SameEndpoints_small:
  assumes "length a \<le> 256"
  shows "SameEndpoints a b \<longleftrightarrow> mset (map name_target a) = mset (map name_target b)"
proof
  assume eq: "mset (map name_target a) = mset (map name_target b)"
  then have "length a = length b"
    by (metis length_map size_mset)
  moreover from eq have "name_target ` set a = name_target ` set b"
    by (metis set_map set_mset_mset)
  ultimately show "SameEndpoints a b"
    unfolding SameEndpoints_iff using eq by simp
next
  let ?A = "mset (map name_target a)" and ?B = "mset (map name_target b)"
  assume "SameEndpoints a b"
  then have len: "length a = length b"
    and sub: "name_target ` set b \<subseteq> name_target ` set a"
    and cnt: "\<And>p. p \<in> name_target ` set a \<Longrightarrow> count ?A p mod 256 = count ?B p mod 256"
    unfolding SameEndpoints_iff word8_of_nat_eq by auto
  have sA: "size ?A = length a" and sB: "size ?B = length a" using len by simp_all
  have setA: "set_mset ?A = name_target ` set a" and setB: "set_mset ?B = name_target ` set b"
    by simp_all
  show "?A = ?B"
  proof (rule multiset_eqI)
    fix p
    show "count ?A p = count ?B p"
    proof (cases "p \<in> name_target ` set a")
      case False
      with sub have "p \<notin># ?A" "p \<notin># ?B" by auto
      then show ?thesis by (simp only: not_in_iff)
    next
      case True
      show ?thesis
      proof (rule ccontr)
        assume ne: "count ?A p \<noteq> count ?B p"
        have "count ?A p \<le> 256" "count ?B p \<le> 256"
          using count_le_size [of ?A p] count_le_size [of ?B p] sA sB assms by linarith+
        with mod256_cases [OF cnt [OF True] _ _ ne]
        have "(count ?A p = 0 \<and> count ?B p = 256) \<or> (count ?A p = 256 \<and> count ?B p = 0)"
          by blast
        moreover from True have "count ?A p \<noteq> 0"
          using setA by (metis count_eq_zero_iff)
        ultimately have cA: "count ?A p = 256" and cB: "count ?B p = 0" by linarith+
        from cA sA assms count_le_size [of ?A p] have full: "count ?A p = size ?A" by linarith
        from cA sA sB full have "size ?B \<noteq> 0" by simp
        then obtain q where q: "q \<in># ?B" by (metis size_eq_0_iff_empty multiset_nonemptyE)
        with sub have "q \<in># ?A" using setA setB by blast
        from count_eq_size_only [OF full this] q cB show False
          by (metis count_eq_zero_iff)
      qed
    qed
  qed
qed

lemma SameEndpoints_sym_small:
  assumes "length a \<le> 256"
  shows "SameEndpoints a b = SameEndpoints b a"
proof (cases "length a = length b")
  case True
  with assms have lb: "length b \<le> 256" by simp
  have "SameEndpoints a b \<longleftrightarrow> mset (map name_target a) = mset (map name_target b)"
    by (rule SameEndpoints_small [OF assms])
  also have "\<dots> \<longleftrightarrow> mset (map name_target b) = mset (map name_target a)"
    by (rule eq_commute)
  also have "\<dots> \<longleftrightarrow> SameEndpoints b a"
    by (rule SameEndpoints_small [OF lb, symmetric])
  finally show ?thesis .
next
  case False
  then show ?thesis by (auto simp: SameEndpoints_def)
qed

text \<open>
  C9 (as amended). For lists \<^verbatim>\<open>a\<close> and \<^verbatim>\<open>b\<close> where \<^verbatim>\<open>a\<close> has at most 256
  elements, \<^verbatim>\<open>SameEndpoints(a, b)\<close> is true if and only if \<^verbatim>\<open>a\<close> and \<^verbatim>\<open>b\<close> hold the
  same (DNSName, Target) pairs with the same multiplicities, and then
  \<^verbatim>\<open>SameEndpoints(a, b) = SameEndpoints(b, a)\<close>.
\<close>

theorem SameEndpoints_multiset:
  assumes "length a \<le> 256"
  shows "(SameEndpoints a b \<longleftrightarrow> mset (map name_target a) = mset (map name_target b))
       \<and> SameEndpoints a b = SameEndpoints b a"
  using SameEndpoints_small [OF assms] SameEndpoints_sym_small [OF assms] by blast

theorem SameEndpoints_multiset_witness:
  "length [ep_x, ep_y, ep_x] \<le> 256
   \<and> SameEndpoints [ep_x, ep_y, ep_x] [ep_x, ep_x, ep_y]
   \<and> SameEndpoints [ep_x, ep_x, ep_y] [ep_x, ep_y, ep_x]
   \<and> mset (map name_target [ep_x, ep_y, ep_x]) = mset (map name_target [ep_x, ep_x, ep_y])
   \<and> \<not> SameEndpoints [ep_x, ep_y, ep_y] [ep_x, ep_x, ep_y]"
proof -
  have l: "length [ep_x, ep_y, ep_x] \<le> 256" by simp
  have s: "SameEndpoints [ep_x, ep_y, ep_x] [ep_x, ep_x, ep_y]" by code_simp
  have n: "\<not> SameEndpoints [ep_x, ep_y, ep_y] [ep_x, ep_x, ep_y]" by code_simp
  from SameEndpoints_multiset [OF l, of "[ep_x, ep_x, ep_y]"] l s n show ?thesis by simp
qed

text \<open>
  C9 as stated fails on longer lists, where the \<^verbatim>\<open>uint8\<close> counters wrap around: 256
  copies of one endpoint followed by a second endpoint compare equal to 257 copies of the
  second, and not the other way round.
\<close>

theorem SameEndpoints_overflow_counterexample:
  "SameEndpoints (replicate 256 ep_x @ [ep_y]) (replicate 257 ep_y)
   \<and> mset (map name_target (replicate 256 ep_x @ [ep_y]))
       \<noteq> mset (map name_target (replicate 257 ep_y))
   \<and> \<not> SameEndpoints (replicate 257 ep_y) (replicate 256 ep_x @ [ep_y])"
proof -
  have ne: "name_target ep_x \<noteq> name_target ep_y"
    by (simp add: name_target_def ep_x_def ep_y_def)
  have z: "(of_nat 256 :: 8 word) = 0" "(of_nat 257 :: 8 word) = 1"
    by (simp_all add: word8_of_nat_eq [of 256 0, simplified] word8_of_nat_eq [of 257 1, simplified])
  have 1: "SameEndpoints (replicate 256 ep_x @ [ep_y]) (replicate 257 ep_y)"
    unfolding SameEndpoints_iff using ne z by auto
  have 2: "mset (map name_target (replicate 256 ep_x @ [ep_y]))
       \<noteq> mset (map name_target (replicate 257 ep_y))"
  proof
    assume "mset (map name_target (replicate 256 ep_x @ [ep_y]))
       = mset (map name_target (replicate 257 ep_y))"
    then have "count (mset (map name_target (replicate 256 ep_x @ [ep_y]))) (name_target ep_x)
       = count (mset (map name_target (replicate 257 ep_y))) (name_target ep_x)" by simp
    then show False using ne by simp
  qed
  have 3: "\<not> SameEndpoints (replicate 257 ep_y) (replicate 256 ep_x @ [ep_y])"
    unfolding SameEndpoints_iff using ne by auto
  from 1 2 3 show ?thesis by blast
qed

subsection \<open>The plan\<close>






















text \<open>
  C3. Under the \<^verbatim>\<open>UpsertOnly\<close> policy the \<^verbatim>\<open>Delete\<close> sequence of the changes is
  empty, and \<^verbatim>\<open>Create\<close>, \<^verbatim>\<open>UpdateOld\<close> and \<^verbatim>\<open>UpdateNew\<close> are those of the
  \<^verbatim>\<open>Sync\<close> policy.
\<close>

theorem UpsertOnly_no_Delete:
  "Delete (Calculate ParseIP [UpsertOnlyPolicy] current desired) = []
   \<and> Create (Calculate ParseIP [UpsertOnlyPolicy] current desired)
       = Create (Calculate ParseIP [SyncPolicy] current desired)
   \<and> UpdateOld (Calculate ParseIP [UpsertOnlyPolicy] current desired)
       = UpdateOld (Calculate ParseIP [SyncPolicy] current desired)
   \<and> UpdateNew (Calculate ParseIP [UpsertOnlyPolicy] current desired)
       = UpdateNew (Calculate ParseIP [SyncPolicy] current desired)"
  by (simp add: Calculate_def)

theorem UpsertOnly_no_Delete_witness:
  "Calculate parse_one [SyncPolicy] [fooV1Cname, bar127A] [fooV2Cname]
     = \<lparr>Create = [], UpdateOld = [fooV1Cname], UpdateNew = [fooV2Cname], Delete = [bar127A]\<rparr>
   \<and> Calculate parse_one [UpsertOnlyPolicy] [fooV1Cname, bar127A] [fooV2Cname]
     = \<lparr>Create = [], UpdateOld = [fooV1Cname], UpdateNew = [fooV2Cname], Delete = []\<rparr>"
proof -
  have s: "Calculate parse_one [SyncPolicy] [fooV1Cname, bar127A] [fooV2Cname]
     = \<lparr>Create = [], UpdateOld = [fooV1Cname], UpdateNew = [fooV2Cname], Delete = [bar127A]\<rparr>"
    by code_simp
  have c: "Create (Calculate parse_one [UpsertOnlyPolicy] [fooV1Cname, bar127A] [fooV2Cname]) = []"
    and o: "UpdateOld (Calculate parse_one [UpsertOnlyPolicy] [fooV1Cname, bar127A] [fooV2Cname])
       = [fooV1Cname]"
    and n: "UpdateNew (Calculate parse_one [UpsertOnlyPolicy] [fooV1Cname, bar127A] [fooV2Cname])
       = [fooV2Cname]"
    and d: "Delete (Calculate parse_one [UpsertOnlyPolicy] [fooV1Cname, bar127A] [fooV2Cname]) = []"
    using UpsertOnly_no_Delete [of parse_one "[fooV1Cname, bar127A]" "[fooV2Cname]"] s
    by simp_all
  have "Calculate parse_one [UpsertOnlyPolicy] [fooV1Cname, bar127A] [fooV2Cname]
     = \<lparr>Create = [], UpdateOld = [fooV1Cname], UpdateNew = [fooV2Cname], Delete = []\<rparr>"
    using c o n d by (cases "Calculate parse_one [UpsertOnlyPolicy] [fooV1Cname, bar127A] [fooV2Cname]") simp
  with s show ?thesis by simp
qed







end
